theory Spec2Isabelle
  imports Complex_Main "HOL-Library.AList"
begin

section \<open>JavaScript values\<close>

text \<open>
  The signaling server (server.js) receives its payloads from socket.io, which decodes
  them from JSON. A payload is therefore a JavaScript value: undefined (an argument that
  was not sent), null, a boolean, a number, a string, an array or a plain object. A number
  is an IEEE double: a finite double is a rational, and the two infinities and NaN are
  values of their own. An object is the list of its own properties. When the client asks
  for an acknowledgement, socket.io appends a function to the arguments of the handler:
  \<open>JFunction\<close> is that function, the only value that can be called.
\<close>

datatype jsnum = Finite rat | PosInfinity | NegInfinity | NaN

datatype jsval =
    JUndefined
  | JNull
  | JBool bool
  | JNum jsnum
  | JStr string
  | JArr "jsval list"
  | JObj "(string \<times> jsval) list"
  | JFunction

datatype jstype = TUndefined | TObject | TBoolean | TNumber | TString | TFunction

datatype js_error = TypeError

text \<open>The operator \<open>typeof\<close>: null and arrays are of type object.\<close>

fun typeof :: "jsval \<Rightarrow> jstype" where
  "typeof JUndefined = TUndefined"
| "typeof JNull = TObject"
| "typeof (JBool b) = TBoolean"
| "typeof (JNum n) = TNumber"
| "typeof (JStr s) = TString"
| "typeof (JArr xs) = TObject"
| "typeof (JObj kvs) = TObject"
| "typeof JFunction = TFunction"

text \<open>
  Truthiness, as \<open>if (v)\<close>, \<open>!v\<close>, \<open>a && b\<close> and \<open>a || b\<close> test it: undefined, null,
  false, 0, NaN and the empty string are falsy, everything else is truthy.
\<close>

fun truthy :: "jsval \<Rightarrow> bool" where
  "truthy JUndefined = False"
| "truthy JNull = False"
| "truthy (JBool b) = b"
| "truthy (JNum n) = (n \<noteq> NaN \<and> n \<noteq> Finite 0)"
| "truthy (JStr s) = (s \<noteq> [])"
| "truthy (JArr xs) = True"
| "truthy (JObj kvs) = True"
| "truthy JFunction = True"

definition js_or :: "jsval \<Rightarrow> jsval \<Rightarrow> jsval" where
  "js_or a b = (if truthy a then a else b)"

definition js_and :: "jsval \<Rightarrow> jsval \<Rightarrow> jsval" where
  "js_and a b = (if truthy a then b else a)"

text \<open>
  Reading a property throws a TypeError on undefined and null; \<open>nullish\<close> is that case, and
  every handler that reads a property of an unchecked value tests it first. On any other
  value \<open>get_prop\<close> is the read: the own property of an object, and undefined for a missing
  property and for the properties this server reads (roomId, passwordHash, isProtected,
  sdp, candidate, metadata, name, size) on a boolean, a number, a string or an array, and
  on the acknowledgement function for the properties read of a whole argument (all of
  them but name and size, which are read of a metadata of type object only).
\<close>

fun nullish :: "jsval \<Rightarrow> bool" where
  "nullish JUndefined = True"
| "nullish JNull = True"
| "nullish v = False"

fun get_prop :: "jsval \<Rightarrow> string \<Rightarrow> jsval" where
  "get_prop (JObj kvs) k = (case map_of kvs k of None \<Rightarrow> JUndefined | Some v \<Rightarrow> v)"
| "get_prop v k = JUndefined"

text \<open>The comparisons \<open><\<close> and \<open>>\<close> on numbers: every comparison with NaN is false.\<close>

fun num_less :: "jsnum \<Rightarrow> jsnum \<Rightarrow> bool" where
  "num_less NaN b = False"
| "num_less a NaN = False"
| "num_less (Finite x) (Finite y) = (x < y)"
| "num_less a NegInfinity = False"
| "num_less NegInfinity b = True"
| "num_less PosInfinity b = False"
| "num_less (Finite x) PosInfinity = True"

text \<open>
  The server compares with \<open><\<close> and \<open>>\<close> only after \<open>typeof size === 'number'\<close>, so the
  comparison of two numbers is the only case that is reached.
\<close>

fun js_less :: "jsval \<Rightarrow> jsval \<Rightarrow> bool" where
  "js_less (JNum a) (JNum b) = num_less a b"
| "js_less a b = False"

definition js_greater :: "jsval \<Rightarrow> jsval \<Rightarrow> bool" where
  "js_greater a b = js_less b a"

text \<open>
  Strict equality \<open>===\<close>. Two objects or arrays are equal only when they are the same
  reference; the values compared here come from two different messages, so they never
  are. NaN is not equal to itself.
\<close>

fun strict_eq :: "jsval \<Rightarrow> jsval \<Rightarrow> bool" where
  "strict_eq JUndefined JUndefined = True"
| "strict_eq JNull JNull = True"
| "strict_eq (JBool a) (JBool b) = (a = b)"
| "strict_eq (JNum a) (JNum b) = (a = b \<and> a \<noteq> NaN)"
| "strict_eq (JStr a) (JStr b) = (a = b)"
| "strict_eq a b = False"

fun string_of :: "jsval \<Rightarrow> string" where
  "string_of (JStr s) = s"
| "string_of v = []"

section \<open>Input validation\<close>

text \<open>The character class \<open>[a-zA-Z0-9]\<close>.\<close>

definition is_alnum :: "char \<Rightarrow> bool" where
  "is_alnum c =
     (let n = (of_char c :: nat)
      in (97 \<le> n \<and> n \<le> 122) \<or> (65 \<le> n \<and> n \<le> 90) \<or> (48 \<le> n \<and> n \<le> 57))"

text \<open>
  The regular expression \<open>/^[a-zA-Z0-9]{8,15}$/\<close>: without the multiline flag, \<open>^\<close> and \<open>$\<close>
  are the two ends of the string, so the whole string is 8 to 15 characters of the class.
\<close>

definition room_id_regex :: "string \<Rightarrow> bool" where
  "room_id_regex s = (8 \<le> length s \<and> length s \<le> 15 \<and> list_all is_alnum s)"

definition isValidRoomId :: "jsval \<Rightarrow> bool" where
  "isValidRoomId roomId = (typeof roomId = TString \<and> room_id_regex (string_of roomId))"

definition isValidSocketData :: "jsval \<Rightarrow> bool" where
  "isValidSocketData data =
     (truthy data \<and> typeof data = TObject \<and> isValidRoomId (get_prop data ''roomId''))"

section \<open>Rate limiting of connections\<close>

record ipData =
  count :: int
  firstConnection :: int

definition RATE_LIMIT_WINDOW :: int where
  "RATE_LIMIT_WINDOW = 60000"




text \<open>The periodic clean-up of the rate limit entries, run at time \<open>now\<close>.\<close>

definition rate_cleanup :: "(string \<rightharpoonup> ipData) \<Rightarrow> int \<Rightarrow> (string \<rightharpoonup> ipData)" where
  "rate_cleanup connectionCounts now =
     (\<lambda>ip. case connectionCounts ip of
              None \<Rightarrow> None
            | Some ipd \<Rightarrow>
                if now - firstConnection ipd > RATE_LIMIT_WINDOW then None else Some ipd)"


section \<open>The room registry and the session handlers\<close>

text \<open>
  A room of the map \<open>rooms\<close>: the set of the socket ids of its users, the password hash
  (null for an unprotected room) and the time of creation in milliseconds.
\<close>

record room =
  users :: "string set"
  passwordHash :: jsval
  createdAt :: int

text \<open>
  The state of the server: the map \<open>rooms\<close> in insertion order (a JavaScript Map iterates
  in that order; \<open>AList.update\<close> is \<open>Map.set\<close>, \<open>map_of\<close> is \<open>Map.get\<close>), and the rooms of
  socket.io, which \<open>socket.join\<close> fills and \<open>socket.to(room).emit\<close> reads. socket.io also
  keeps every socket in a room named by its own id; that id has 20 characters and is never
  a valid room id, so these rooms are left out.
\<close>

record server =
  rooms :: "(string \<times> room) list"
  sio_rooms :: "string \<Rightarrow> string set"

definition init_server :: server where
  "init_server = \<lparr>rooms = [], sio_rooms = (\<lambda>r. {})\<rparr>"

text \<open>
  What a handler sends: \<open>socket.emit(event, args)\<close> to the caller, the acknowledgement
  \<open>callback(arg)\<close> to the caller, and \<open>socket.to(room).emit(event, args)\<close> to the sockets of
  a socket.io room other than the caller.

  A handler returns, \<open>Inr\<close> with the state it leaves and what it has sent, or throws,
  \<open>Inl\<close> with the error and with the state and what it had sent when it threw.
\<close>

datatype emit =
    Emit string "jsval list"
  | Callback jsval
  | Broadcast string string "jsval list"

type_synonym outcome = "(js_error \<times> server \<times> emit list) + (server \<times> emit list)"

definition check_room :: "server \<Rightarrow> jsval \<Rightarrow> outcome" where
  "check_room s data =
     (if nullish data then Inl (TypeError, s, [])
      else
        let roomId = get_prop data ''roomId'' in
        if \<not> isValidRoomId roomId then Inr (s, [Emit ''room-not-found'' []])
        else
          case map_of (rooms s) (string_of roomId) of
            None \<Rightarrow> Inr (s, [Emit ''room-not-found'' []])
          | Some rm \<Rightarrow>
              Inr (s, [Emit ''room-info''
                        [JObj [(''exists'', JBool True),
                               (''isProtected'', JBool (truthy (passwordHash rm))),
                               (''hasUsers'', JBool (users rm \<noteq> {}))]]]))"

definition verify_password :: "server \<Rightarrow> jsval \<Rightarrow> outcome" where
  "verify_password s data =
     (if nullish data then Inl (TypeError, s, [])
      else
        let roomId = get_prop data ''roomId'';
            pwHash = get_prop data ''passwordHash'' in
        if \<not> isValidRoomId roomId \<or> typeof pwHash \<noteq> TString
        then Inr (s, [Emit ''password-verified'' [JObj [(''valid'', JBool False)]]])
        else
          case map_of (rooms s) (string_of roomId) of
            None \<Rightarrow> Inr (s, [Emit ''password-verified'' [JObj [(''valid'', JBool False)]]])
          | Some rm \<Rightarrow>
              let isValid = strict_eq (passwordHash rm) pwHash
              in Inr (s, [Emit ''password-verified'' [JObj [(''valid'', JBool isValid)]]]))"

text \<open>
  The statement \<open>if (callback) callback(v)\<close> of the join-room handler. The second argument
  of the handler is the acknowledgement function when the client asked for one, and else
  whatever the client sent second, undefined when it sent nothing. A truthy value that is
  not a function cannot be called: the call throws a TypeError.
\<close>

definition call_if_given :: "jsval \<Rightarrow> jsval \<Rightarrow> js_error + emit list" where
  "call_if_given callback v =
     (if truthy callback then
        (if callback = JFunction then Inr [Callback v] else Inl TypeError)
      else Inr [])"

text \<open>
  The second half of the join-room handler, from the check of the room id on, with the
  three variables \<open>roomId\<close>, \<open>passwordHash\<close> and \<open>isProtected\<close> that the first half has set.
  The error event is sent before the callback is called; on a valid room id the room is
  created and joined before the callback is called, and the rest of the room is told
  after it.
\<close>

definition join_checked ::
  "server \<Rightarrow> string \<Rightarrow> int \<Rightarrow> jsval \<Rightarrow> jsval \<Rightarrow> jsval \<Rightarrow> jsval \<Rightarrow> outcome" where
  "join_checked s sid now roomId pwHash isProtected callback =
     (if \<not> isValidRoomId roomId then
        (case call_if_given callback
                (JObj [(''success'', JBool False), (''error'', JStr ''Invalid room ID'')]) of
           Inl e \<Rightarrow> Inl (e, s, [Emit ''error'' [JStr ''Invalid room ID format'']])
         | Inr called \<Rightarrow> Inr (s, Emit ''error'' [JStr ''Invalid room ID format''] # called))
      else
        let rid = string_of roomId;
            rooms1 =
              (if truthy (js_and isProtected pwHash) then
                 (if map_of (rooms s) rid = None
                  then AList.update rid
                         \<lparr>users = {}, passwordHash = pwHash, createdAt = now\<rparr> (rooms s)
                  else rooms s)
               else if map_of (rooms s) rid = None
                  then AList.update rid
                         \<lparr>users = {}, passwordHash = JNull, createdAt = now\<rparr> (rooms s)
               else rooms s);
            joined = (sio_rooms s)(rid := insert sid (sio_rooms s rid))
        in
          case map_of rooms1 rid of
            None \<Rightarrow> Inl (TypeError, s\<lparr>rooms := rooms1, sio_rooms := joined\<rparr>, [])
          | Some rm \<Rightarrow>
              let s' = s\<lparr>rooms := AList.update rid (rm\<lparr>users := insert sid (users rm)\<rparr>) rooms1,
                         sio_rooms := joined\<rparr>
              in
                case call_if_given callback
                       (JObj [(''success'', JBool True), (''roomId'', roomId)]) of
                  Inl e \<Rightarrow> Inl (e, s', [])
                | Inr called \<Rightarrow> Inr (s', called @ [Broadcast rid ''user-joined'' [JStr sid]]))"

definition join_room :: "server \<Rightarrow> string \<Rightarrow> int \<Rightarrow> jsval \<Rightarrow> jsval \<Rightarrow> outcome" where
  "join_room s sid now data callback =
     (if typeof data = TString then
        join_checked s sid now data JNull (JBool False) callback
      else if typeof data = TObject then
        (if nullish data then Inl (TypeError, s, [])
         else if truthy (get_prop data ''roomId'') then
           join_checked s sid now (get_prop data ''roomId'')
             (js_or (get_prop data ''passwordHash'') JNull)
             (js_or (get_prop data ''isProtected'') (JBool False)) callback
         else
           (case call_if_given callback
                   (JObj [(''success'', JBool False), (''error'', JStr ''Invalid data'')]) of
              Inl e \<Rightarrow> Inl (e, s, [Emit ''error'' [JStr ''Invalid join-room data'']])
            | Inr called \<Rightarrow> Inr (s, Emit ''error'' [JStr ''Invalid join-room data''] # called)))
      else
        (case call_if_given callback
                (JObj [(''success'', JBool False), (''error'', JStr ''Invalid data'')]) of
           Inl e \<Rightarrow> Inl (e, s, [Emit ''error'' [JStr ''Invalid join-room data'']])
         | Inr called \<Rightarrow> Inr (s, Emit ''error'' [JStr ''Invalid join-room data''] # called)))"

definition offer :: "server \<Rightarrow> string \<Rightarrow> jsval \<Rightarrow> outcome" where
  "offer s sid data =
     (if \<not> isValidSocketData data \<or> \<not> truthy (get_prop data ''sdp'') then Inr (s, [])
      else Inr (s, [Broadcast (string_of (get_prop data ''roomId'')) ''offer''
                      [JObj [(''sdp'', get_prop data ''sdp''), (''from'', JStr sid)]]]))"

definition answer :: "server \<Rightarrow> string \<Rightarrow> jsval \<Rightarrow> outcome" where
  "answer s sid data =
     (if \<not> isValidSocketData data \<or> \<not> truthy (get_prop data ''sdp'') then Inr (s, [])
      else Inr (s, [Broadcast (string_of (get_prop data ''roomId'')) ''answer''
                      [JObj [(''sdp'', get_prop data ''sdp''), (''from'', JStr sid)]]]))"

definition ice_candidate :: "server \<Rightarrow> string \<Rightarrow> jsval \<Rightarrow> outcome" where
  "ice_candidate s sid data =
     (if \<not> isValidSocketData data \<or> \<not> truthy (get_prop data ''candidate'') then Inr (s, [])
      else Inr (s, [Broadcast (string_of (get_prop data ''roomId'')) ''ice-candidate''
                      [JObj [(''candidate'', get_prop data ''candidate''), (''from'', JStr sid)]]]))"

definition MAX_META_SIZE :: jsval where
  "MAX_META_SIZE = JNum (Finite (10 * 1024 * 1024 * 1024))"

definition file_meta :: "server \<Rightarrow> string \<Rightarrow> jsval \<Rightarrow> outcome" where
  "file_meta s sid data =
     (if \<not> isValidSocketData data \<or> \<not> truthy (get_prop data ''metadata'')
         \<or> typeof (get_prop data ''metadata'') \<noteq> TObject
      then Inr (s, [])
      else
        let metadata = get_prop data ''metadata'';
            name = get_prop metadata ''name'';
            size = get_prop metadata ''size'' in
        if typeof name \<noteq> TString \<or> typeof size \<noteq> TNumber
           \<or> js_less size (JNum (Finite 0)) \<or> js_greater size MAX_META_SIZE
        then Inr (s, [])
        else Inr (s, [Broadcast (string_of (get_prop data ''roomId'')) ''file-meta'' [metadata]]))"

definition transfer_done :: "server \<Rightarrow> string \<Rightarrow> jsval \<Rightarrow> outcome" where
  "transfer_done s sid data =
     (if \<not> isValidSocketData data then Inr (s, [])
      else Inr (s, [Broadcast (string_of (get_prop data ''roomId'')) ''transfer-done'' []]))"

definition transfer_confirmed :: "server \<Rightarrow> string \<Rightarrow> jsval \<Rightarrow> outcome" where
  "transfer_confirmed s sid data =
     (if \<not> isValidSocketData data then Inr (s, [])
      else Inr (s, [Broadcast (string_of (get_prop data ''roomId'')) ''transfer-confirmed'' []]))"

text \<open>
  The loop of the disconnect handler, \<open>rooms.forEach\<close>, over the entries in order: a room
  that has the socket loses it and the rest of the room is told; the room is deleted when
  it has become empty. Deleting the entry that is being visited does not disturb the
  iteration of a Map.
\<close>

fun leave_rooms :: "string \<Rightarrow> (string \<times> room) list \<Rightarrow> (string \<times> room) list \<times> emit list" where
  "leave_rooms sid [] = ([], [])"
| "leave_rooms sid ((roomId, rm) # rest) =
     (let (rest', out) = leave_rooms sid rest in
      if sid \<in> users rm then
        let rm' = rm\<lparr>users := users rm - {sid}\<rparr>;
            notice = Broadcast roomId ''user-left'' [JObj [(''userId'', JStr sid)]]
        in (if users rm' = {} then rest' else (roomId, rm') # rest', notice # out)
      else ((roomId, rm) # rest', out))"

text \<open>
  A disconnect: socket.io takes the socket out of all its rooms, then runs the handler.
\<close>

definition disconnect :: "server \<Rightarrow> string \<Rightarrow> outcome" where
  "disconnect s sid =
     (let (rooms', out) = leave_rooms sid (rooms s)
      in Inr (s\<lparr>rooms := rooms', sio_rooms := (\<lambda>r. sio_rooms s r - {sid})\<rparr>, out))"

definition ROOM_TIMEOUT :: int where
  "ROOM_TIMEOUT = 10 * 60 * 1000"

text \<open>The periodic clean-up of old rooms, run at time \<open>now\<close>.\<close>

definition room_cleanup :: "int \<Rightarrow> server \<Rightarrow> server" where
  "room_cleanup now s =
     s\<lparr>rooms := filter (\<lambda>(roomId, rm). \<not> (now - createdAt rm > ROOM_TIMEOUT \<and> users rm = {}))
                  (rooms s)\<rparr>"

text \<open>The sockets that receive a message sent by the socket \<open>sid\<close>.\<close>

fun recipients :: "server \<Rightarrow> string \<Rightarrow> emit \<Rightarrow> string set" where
  "recipients s sid (Emit ev args) = {sid}"
| "recipients s sid (Callback v) = {sid}"
| "recipients s sid (Broadcast r ev args) = sio_rooms s r - {sid}"

text \<open>The members of a room according to the registry; a room that is absent has none.\<close>

definition members :: "server \<Rightarrow> string \<Rightarrow> string set" where
  "members s r = (case map_of (rooms s) r of None \<Rightarrow> {} | Some rm \<Rightarrow> users rm)"

text \<open>
  The registry and socket.io agree: every room id is entered once and is valid, and the
  sockets of a socket.io room are the users of the room in the registry.
\<close>

definition consistent :: "server \<Rightarrow> bool" where
  "consistent s =
     (distinct (map fst (rooms s))
      \<and> (\<forall>r \<in> fst ` set (rooms s). room_id_regex r)
      \<and> (\<forall>r. sio_rooms s r = members s r))"

text \<open>The messages of the protocol, and the handler of each.\<close>

datatype event =
    CheckRoom jsval
  | VerifyPassword jsval
  | JoinRoom jsval jsval
  | Offer jsval
  | Answer jsval
  | IceCandidate jsval
  | FileMeta jsval
  | TransferDone jsval
  | TransferConfirmed jsval
  | Disconnect

fun handle :: "server \<Rightarrow> string \<Rightarrow> int \<Rightarrow> event \<Rightarrow> outcome" where
  "handle s sid now (CheckRoom data) = check_room s data"
| "handle s sid now (VerifyPassword data) = verify_password s data"
| "handle s sid now (JoinRoom data cb) = join_room s sid now data cb"
| "handle s sid now (Offer data) = offer s sid data"
| "handle s sid now (Answer data) = answer s sid data"
| "handle s sid now (IceCandidate data) = ice_candidate s sid data"
| "handle s sid now (FileMeta data) = file_meta s sid data"
| "handle s sid now (TransferDone data) = transfer_done s sid data"
| "handle s sid now (TransferConfirmed data) = transfer_confirmed s sid data"
| "handle s sid now Disconnect = disconnect s sid"

text \<open>The state a handler leaves, whether it returns or throws.\<close>

fun state_of :: "outcome \<Rightarrow> server" where
  "state_of (Inl (e, s, out)) = s"
| "state_of (Inr (s, out)) = s"

text \<open>
  The states the server can be in: any run of messages and clean-ups from the start. The
  state a handler leaves when it throws counts too.
\<close>

inductive reachable :: "server \<Rightarrow> bool" where
  start: "reachable init_server"
| message: "reachable s \<Longrightarrow> handle s sid now ev = Inr (s', out) \<Longrightarrow> reachable s'"
| thrown: "reachable s \<Longrightarrow> handle s sid now ev = Inl (e, s', out) \<Longrightarrow> reachable s'"
| cleanup: "reachable s \<Longrightarrow> reachable (room_cleanup now s)"

section \<open>The conditions on a file-meta message\<close>

text \<open>
  The size of the metadata as the specification words it: a number that is not negative
  and does not exceed 10 GiB.
\<close>

definition within_size_limit :: "jsval \<Rightarrow> bool" where
  "within_size_limit v =
     (case v of JNum (Finite x) \<Rightarrow> 0 \<le> x \<and> x \<le> 10 * 1024 * 1024 * 1024 | _ \<Rightarrow> False)"

fun is_text :: "jsval \<Rightarrow> bool" where
  "is_text (JStr s) = True"
| "is_text v = False"

fun is_nonempty_text :: "jsval \<Rightarrow> bool" where
  "is_nonempty_text (JStr s) = (s \<noteq> [])"
| "is_nonempty_text v = False"

fun is_object :: "jsval \<Rightarrow> bool" where
  "is_object (JObj kvs) = True"
| "is_object v = False"

text \<open>
  The condition of the specification for a file-meta message to be relayed: the payload
  is an object with a valid room id and a metadata object whose name is non-empty text and
  whose size is within the limit.
\<close>

definition file_meta_spec :: "jsval \<Rightarrow> bool" where
  "file_meta_spec data =
     (is_object data \<and> isValidRoomId (get_prop data ''roomId'')
      \<and> is_object (get_prop data ''metadata'')
      \<and> is_nonempty_text (get_prop (get_prop data ''metadata'') ''name'')
      \<and> within_size_limit (get_prop (get_prop data ''metadata'') ''size''))"

text \<open>The same condition with a name that is any text, the empty string too.\<close>

definition file_meta_accepted :: "jsval \<Rightarrow> bool" where
  "file_meta_accepted data =
     (is_object data \<and> isValidRoomId (get_prop data ''roomId'')
      \<and> is_object (get_prop data ''metadata'')
      \<and> is_text (get_prop (get_prop data ''metadata'') ''name'')
      \<and> within_size_limit (get_prop (get_prop data ''metadata'') ''size''))"

section \<open>Sample states\<close>

definition protected_state :: server where
  "protected_state =
     \<lparr>rooms = [(''ABCDEFGH'', \<lparr>users = {''sockA''}, passwordHash = JStr ''h1'', createdAt = 7\<rparr>)],
      sio_rooms = (\<lambda>r. {})(''ABCDEFGH'' := {''sockA''})\<rparr>"

definition open_state :: server where
  "open_state =
     \<lparr>rooms = [(''ABCDEFGH'', \<lparr>users = {''sockA''}, passwordHash = JNull, createdAt = 7\<rparr>)],
      sio_rooms = (\<lambda>r. {})(''ABCDEFGH'' := {''sockA''})\<rparr>"

definition truthy_flag_join :: jsval where
  "truthy_flag_join =
     JObj [(''roomId'', JStr ''ABCDEFGH''), (''passwordHash'', JStr ''h1''),
           (''isProtected'', JStr ''yes'')]"

definition pair_state :: server where
  "pair_state =
     \<lparr>rooms = [(''ABCDEFGH'',
                \<lparr>users = {''sockA'', ''sockB''}, passwordHash = JNull, createdAt = 7\<rparr>),
               (''solo5678'', \<lparr>users = {''sockA''}, passwordHash = JNull, createdAt = 8\<rparr>)],
      sio_rooms = (\<lambda>r. {})(''ABCDEFGH'' := {''sockA'', ''sockB''}, ''solo5678'' := {''sockA''})\<rparr>"

definition aged_state :: server where
  "aged_state =
     \<lparr>rooms = [(''oldEmpty1'', \<lparr>users = {}, passwordHash = JNull, createdAt = 0\<rparr>),
               (''oldInUse1'', \<lparr>users = {''sockA''}, passwordHash = JNull, createdAt = 0\<rparr>),
               (''newEmpty1'', \<lparr>users = {}, passwordHash = JNull, createdAt = 500000\<rparr>)],
      sio_rooms = (\<lambda>r. {})(''oldInUse1'' := {''sockA''})\<rparr>"

definition empty_name_meta :: jsval where
  "empty_name_meta =
     JObj [(''roomId'', JStr ''ABCDEFGH''),
           (''metadata'', JObj [(''name'', JStr []), (''size'', JNum (Finite 1024))])]"

section \<open>Validation of room ids\<close>

lemma invalid_string_id: "\<not> room_id_regex rid \<Longrightarrow> \<not> isValidRoomId (JStr rid)"
  by (simp add: isValidRoomId_def)

lemma valid_string_id [simp]: "isValidRoomId (JStr rid) = room_id_regex rid"
  by (simp add: isValidRoomId_def)

lemma isValidRoomId_cases: "isValidRoomId v \<longleftrightarrow> (\<exists>rid. v = JStr rid \<and> room_id_regex rid)"
  by (cases v) (auto simp: isValidRoomId_def)

lemma room_id_regex_nonempty: "room_id_regex rid \<Longrightarrow> rid \<noteq> []"
  by (auto simp: room_id_regex_def)

lemma get_prop_not_nullish: "get_prop data k = JStr rid \<Longrightarrow> \<not> nullish data"
  by (cases data) auto

lemma get_prop_object: "get_prop data k = JStr rid \<Longrightarrow> typeof data = TObject \<and> truthy data"
  by (cases data) auto

lemma room_id_regex_ABCDEFGH: "room_id_regex ''ABCDEFGH''"
  by (simp add: room_id_regex_def is_alnum_def)

lemma call_if_given_cases:
  "call_if_given cb v =
     (if cb = JFunction then Inr [Callback v] else if truthy cb then Inl TypeError else Inr [])"
  by (simp add: call_if_given_def)

lemma join_checked_invalid:
  assumes "\<not> isValidRoomId v"
  shows "join_checked s sid now v ph ip cb =
     (if cb = JFunction then
        Inr (s, [Emit ''error'' [JStr ''Invalid room ID format''],
                 Callback (JObj [(''success'', JBool False),
                                 (''error'', JStr ''Invalid room ID'')])])
      else if truthy cb then Inl (TypeError, s, [Emit ''error'' [JStr ''Invalid room ID format'']])
      else Inr (s, [Emit ''error'' [JStr ''Invalid room ID format'']]))"
  using assms by (simp add: join_checked_def call_if_given_cases)

text \<open>
  Claim C1. A string that does not match the regular expression is given as the room id
  (\<open>data.roomId\<close>, or the bare string of the old form of join-room). Then check-room answers
  room-not-found, verify-password answers valid false, and the six relays send nothing at
  all. join-room sends the error event and then calls the callback with success false: to
  an acknowledgement function this is the error acknowledgement, a falsy second argument
  is not called, and a truthy second argument that is not a function makes the call throw
  a TypeError after the error event. In every case the state of the server, the registry
  of rooms and the rooms of socket.io, is what it was.
\<close>

theorem invalid_room_id_rejected:
  assumes "\<not> room_id_regex rid" and "get_prop data ''roomId'' = JStr rid"
  shows "check_room s data = Inr (s, [Emit ''room-not-found'' []])
    \<and> verify_password s data =
        Inr (s, [Emit ''password-verified'' [JObj [(''valid'', JBool False)]]])
    \<and> join_room s sid now (JStr rid) cb =
        (if cb = JFunction then
           Inr (s, [Emit ''error'' [JStr ''Invalid room ID format''],
                    Callback (JObj [(''success'', JBool False),
                                    (''error'', JStr ''Invalid room ID'')])])
         else if truthy cb then
           Inl (TypeError, s, [Emit ''error'' [JStr ''Invalid room ID format'']])
         else Inr (s, [Emit ''error'' [JStr ''Invalid room ID format'']]))
    \<and> join_room s sid now data cb =
        (if cb = JFunction then
           Inr (s, [Emit ''error''
                      [JStr (if rid = [] then ''Invalid join-room data''
                             else ''Invalid room ID format'')],
                    Callback (JObj [(''success'', JBool False),
                       (''error'', JStr (if rid = [] then ''Invalid data''
                                         else ''Invalid room ID''))])])
         else if truthy cb then
           Inl (TypeError, s,
                [Emit ''error''
                   [JStr (if rid = [] then ''Invalid join-room data''
                          else ''Invalid room ID format'')]])
         else Inr (s, [Emit ''error''
                         [JStr (if rid = [] then ''Invalid join-room data''
                                else ''Invalid room ID format'')]]))
    \<and> offer s sid data = Inr (s, [])
    \<and> answer s sid data = Inr (s, [])
    \<and> ice_candidate s sid data = Inr (s, [])
    \<and> file_meta s sid data = Inr (s, [])
    \<and> transfer_done s sid data = Inr (s, [])
    \<and> transfer_confirmed s sid data = Inr (s, [])"
proof -
  have inv: "\<not> isValidRoomId (JStr rid)" using assms(1) by (rule invalid_string_id)
  have nn: "\<not> nullish data" using assms(2) by (rule get_prop_not_nullish)
  have ob: "typeof data = TObject" using get_prop_object [OF assms(2)] by simp
  have sd: "\<not> isValidSocketData data" using inv assms(2) by (simp add: isValidSocketData_def)
  have 1: "check_room s data = Inr (s, [Emit ''room-not-found'' []])"
    using inv nn assms(2) by (simp add: check_room_def)
  have 2: "verify_password s data =
        Inr (s, [Emit ''password-verified'' [JObj [(''valid'', JBool False)]]])"
    using inv nn assms(2) by (simp add: verify_password_def Let_def)
  have 3: "join_room s sid now (JStr rid) cb =
        (if cb = JFunction then
           Inr (s, [Emit ''error'' [JStr ''Invalid room ID format''],
                    Callback (JObj [(''success'', JBool False),
                                    (''error'', JStr ''Invalid room ID'')])])
         else if truthy cb then
           Inl (TypeError, s, [Emit ''error'' [JStr ''Invalid room ID format'']])
         else Inr (s, [Emit ''error'' [JStr ''Invalid room ID format'']]))"
    using join_checked_invalid [OF inv] by (simp add: join_room_def)
  have 4: "join_room s sid now data cb =
        (if cb = JFunction then
           Inr (s, [Emit ''error''
                      [JStr (if rid = [] then ''Invalid join-room data''
                             else ''Invalid room ID format'')],
                    Callback (JObj [(''success'', JBool False),
                       (''error'', JStr (if rid = [] then ''Invalid data''
                                         else ''Invalid room ID''))])])
         else if truthy cb then
           Inl (TypeError, s,
                [Emit ''error''
                   [JStr (if rid = [] then ''Invalid join-room data''
                          else ''Invalid room ID format'')]])
         else Inr (s, [Emit ''error''
                         [JStr (if rid = [] then ''Invalid join-room data''
                                else ''Invalid room ID format'')]]))"
  proof (cases "rid = []")
    case True
    then show ?thesis
      using nn ob assms(2) by (simp add: join_room_def call_if_given_cases)
  next
    case False
    then show ?thesis
      using nn ob assms(2) join_checked_invalid [OF inv] by (simp add: join_room_def)
  qed
  have 5: "offer s sid data = Inr (s, [])" using sd by (simp add: offer_def)
  have 6: "answer s sid data = Inr (s, [])" using sd by (simp add: answer_def)
  have 7: "ice_candidate s sid data = Inr (s, [])" using sd by (simp add: ice_candidate_def)
  have 8: "file_meta s sid data = Inr (s, [])" using sd by (simp add: file_meta_def)
  have 9: "transfer_done s sid data = Inr (s, [])" using sd by (simp add: transfer_done_def)
  have 10: "transfer_confirmed s sid data = Inr (s, [])"
    using sd by (simp add: transfer_confirmed_def)
  show ?thesis
    by (intro conjI) (rule 1 2 3 4 5 6 7 8 9 10)+
qed

theorem invalid_room_id_rejected_witness:
  "\<not> room_id_regex ''room 1''
   \<and> get_prop (JObj [(''roomId'', JStr ''room 1''), (''sdp'', JStr ''v=0'')]) ''roomId''
       = JStr ''room 1''
   \<and> verify_password protected_state (JObj [(''roomId'', JStr ''room 1''), (''sdp'', JStr ''v=0'')])
       = Inr (protected_state, [Emit ''password-verified'' [JObj [(''valid'', JBool False)]]])
   \<and> join_room protected_state ''sockB'' 9 (JStr ''room 1'') JFunction =
       Inr (protected_state,
            [Emit ''error'' [JStr ''Invalid room ID format''],
             Callback (JObj [(''success'', JBool False), (''error'', JStr ''Invalid room ID'')])])
   \<and> join_room protected_state ''sockB'' 9 (JStr ''room 1'') (JStr ''x'') =
       Inl (TypeError, protected_state, [Emit ''error'' [JStr ''Invalid room ID format'']])
   \<and> offer protected_state ''sockB'' (JObj [(''roomId'', JStr ''room 1''), (''sdp'', JStr ''v=0'')])
       = Inr (protected_state, [])"
proof -
  have h1: "\<not> room_id_regex ''room 1''" by (simp add: room_id_regex_def)
  have h2: "get_prop (JObj [(''roomId'', JStr ''room 1''), (''sdp'', JStr ''v=0'')]) ''roomId''
       = JStr ''room 1''" by simp
  note r = invalid_room_id_rejected [OF h1 h2, where s = protected_state and sid = "''sockB''"
      and now = 9]
  have v: "verify_password protected_state
             (JObj [(''roomId'', JStr ''room 1''), (''sdp'', JStr ''v=0'')])
       = Inr (protected_state, [Emit ''password-verified'' [JObj [(''valid'', JBool False)]]])"
    by (rule r [THEN conjunct2, THEN conjunct1])
  have j1: "join_room protected_state ''sockB'' 9 (JStr ''room 1'') JFunction =
       Inr (protected_state,
            [Emit ''error'' [JStr ''Invalid room ID format''],
             Callback (JObj [(''success'', JBool False), (''error'', JStr ''Invalid room ID'')])])"
    using r [where cb = JFunction, THEN conjunct2, THEN conjunct2, THEN conjunct1] by simp
  have j2: "join_room protected_state ''sockB'' 9 (JStr ''room 1'') (JStr ''x'') =
       Inl (TypeError, protected_state, [Emit ''error'' [JStr ''Invalid room ID format'']])"
    using r [where cb = "JStr ''x''", THEN conjunct2, THEN conjunct2, THEN conjunct1] by simp
  have o: "offer protected_state ''sockB''
             (JObj [(''roomId'', JStr ''room 1''), (''sdp'', JStr ''v=0'')])
       = Inr (protected_state, [])"
    by (rule r [THEN conjunct2, THEN conjunct2, THEN conjunct2, THEN conjunct2, THEN conjunct1])
  show ?thesis
    by (intro conjI) (rule h1 h2 v j1 j2 o)+
qed

section \<open>Joining a room\<close>

lemma truthy_js_and_or:
  "truthy (js_and (js_or ip (JBool False)) (js_or ph JNull)) = (truthy ip \<and> truthy ph)"
  by (simp add: js_and_def js_or_def)

lemma js_or_truthy: "truthy a \<Longrightarrow> js_or a b = a"
  by (simp add: js_or_def)

lemma join_checked_new:
  assumes "room_id_regex rid" and "map_of (rooms s) rid = None"
    and "s' = s\<lparr>rooms := AList.update rid
                 \<lparr>users = {sid},
                  passwordHash = (if truthy (js_and ip ph) then ph else JNull),
                  createdAt = now\<rparr> (rooms s),
            sio_rooms := (sio_rooms s)(rid := insert sid (sio_rooms s rid))\<rparr>"
  shows "join_checked s sid now (JStr rid) ph ip cb =
     (if cb = JFunction then
        Inr (s', [Callback (JObj [(''success'', JBool True), (''roomId'', JStr rid)]),
                  Broadcast rid ''user-joined'' [JStr sid]])
      else if truthy cb then Inl (TypeError, s', [])
      else Inr (s', [Broadcast rid ''user-joined'' [JStr sid]]))"
  using assms by (simp add: join_checked_def Let_def update_conv' call_if_given_cases)

lemma join_checked_existing:
  assumes "room_id_regex rid" and "map_of (rooms s) rid = Some rm"
    and "s' = s\<lparr>rooms := AList.update rid (rm\<lparr>users := insert sid (users rm)\<rparr>) (rooms s),
            sio_rooms := (sio_rooms s)(rid := insert sid (sio_rooms s rid))\<rparr>"
  shows "join_checked s sid now (JStr rid) ph ip cb =
     (if cb = JFunction then
        Inr (s', [Callback (JObj [(''success'', JBool True), (''roomId'', JStr rid)]),
                  Broadcast rid ''user-joined'' [JStr sid]])
      else if truthy cb then Inl (TypeError, s', [])
      else Inr (s', [Broadcast rid ''user-joined'' [JStr sid]]))"
  using assms by (simp add: join_checked_def Let_def call_if_given_cases)

lemma join_room_valid:
  assumes "room_id_regex rid" and "data = JStr rid \<or> get_prop data ''roomId'' = JStr rid"
  shows "join_room s sid now data cb =
     join_checked s sid now (JStr rid) (js_or (get_prop data ''passwordHash'') JNull)
       (js_or (get_prop data ''isProtected'') (JBool False)) cb"
proof -
  from assms(2) show ?thesis
  proof
    assume "data = JStr rid"
    then show ?thesis by (simp add: join_room_def js_or_def)
  next
    assume g: "get_prop data ''roomId'' = JStr rid"
    have "\<not> nullish data" using g by (rule get_prop_not_nullish)
    moreover have "typeof data = TObject" using get_prop_object [OF g] by simp
    moreover have "rid \<noteq> []" using assms(1) by (rule room_id_regex_nonempty)
    ultimately show ?thesis using g by (simp add: join_room_def)
  qed
qed

text \<open>
  The state a join-room call with the valid room id \<open>rid\<close> leaves, whether the call of the
  callback returns or throws: a room that was absent is created, the caller is added.
\<close>

lemma join_room_outcome:
  assumes "room_id_regex rid" and "data = JStr rid \<or> get_prop data ''roomId'' = JStr rid"
    and "rm = (case map_of (rooms s) rid of
                 None \<Rightarrow>
                   \<lparr>users = {},
                    passwordHash =
                      (if truthy (get_prop data ''isProtected'')
                          \<and> truthy (get_prop data ''passwordHash'')
                       then get_prop data ''passwordHash'' else JNull),
                    createdAt = now\<rparr>
               | Some rm0 \<Rightarrow> rm0)"
    and "s' = s\<lparr>rooms := AList.update rid (rm\<lparr>users := insert sid (users rm)\<rparr>) (rooms s),
            sio_rooms := (sio_rooms s)(rid := insert sid (sio_rooms s rid))\<rparr>"
  shows "join_room s sid now data cb =
     (if cb = JFunction then
        Inr (s', [Callback (JObj [(''success'', JBool True), (''roomId'', JStr rid)]),
                  Broadcast rid ''user-joined'' [JStr sid]])
      else if truthy cb then Inl (TypeError, s', [])
      else Inr (s', [Broadcast rid ''user-joined'' [JStr sid]]))"
proof (cases "map_of (rooms s) rid")
  case None
  have "s' = s\<lparr>rooms := AList.update rid
                 \<lparr>users = {sid},
                  passwordHash =
                    (if truthy (js_and (js_or (get_prop data ''isProtected'') (JBool False))
                                  (js_or (get_prop data ''passwordHash'') JNull))
                     then js_or (get_prop data ''passwordHash'') JNull else JNull),
                  createdAt = now\<rparr> (rooms s),
            sio_rooms := (sio_rooms s)(rid := insert sid (sio_rooms s rid))\<rparr>"
    using assms(3,4) None by (simp add: truthy_js_and_or js_or_truthy)
  then show ?thesis
    unfolding join_room_valid [OF assms(1,2)] by (rule join_checked_new [OF assms(1) None])
next
  case (Some rm0)
  have "s' = s\<lparr>rooms := AList.update rid (rm0\<lparr>users := insert sid (users rm0)\<rparr>) (rooms s),
            sio_rooms := (sio_rooms s)(rid := insert sid (sio_rooms s rid))\<rparr>"
    using assms(3,4) Some by simp
  then show ?thesis
    unfolding join_room_valid [OF assms(1,2)] by (rule join_checked_existing [OF assms(1) Some])
qed

text \<open>
  Claim C2, as the specification states it, does not hold: a call whose isProtected is the
  string "yes", not the flag true, creates a protected room that stores the supplied hash.
  The handler tests the truthiness of the flag and of the hash.
\<close>

theorem join_room_truthy_flag_counterexample:
  "get_prop truthy_flag_join ''isProtected'' \<noteq> JBool True
   \<and> join_room init_server ''sockA'' 7 truthy_flag_join JUndefined
       = Inr (protected_state, [Broadcast ''ABCDEFGH'' ''user-joined'' [JStr ''sockA'']])
   \<and> map_of (rooms protected_state) ''ABCDEFGH''
       = Some \<lparr>users = {''sockA''}, passwordHash = JStr ''h1'', createdAt = 7\<rparr>"
  by (simp add: truthy_flag_join_def join_room_def join_checked_def call_if_given_def Let_def
      init_server_def protected_state_def js_or_def js_and_def room_id_regex_ABCDEFGH)

text \<open>
  Claim C2, amended. A join-room call carries a valid room id \<open>rid\<close>, as the bare string or
  as \<open>data.roomId\<close>. The handler throws only when its second argument is truthy and not a
  function, and it has changed the registry by then. If the registry had no room \<open>rid\<close>, it
  now has one, created at \<open>now\<close> with the caller as its only user; the room stores the
  supplied hash exactly when \<open>data.isProtected\<close> and \<open>data.passwordHash\<close> are both truthy,
  which for a boolean flag and a string hash is: the flag is true and the hash is not
  empty; otherwise its hash is null. If the registry had a room \<open>rid\<close>, the room keeps its
  hash and its time of creation and gains the caller. No other room changes.
\<close>

theorem join_room_first_writer_wins:
  assumes "room_id_regex rid" and "data = JStr rid \<or> get_prop data ''roomId'' = JStr rid"
  shows "\<exists>s' out.
      join_room s sid now data cb =
        (if cb \<noteq> JFunction \<and> truthy cb then Inl (TypeError, s', out) else Inr (s', out))
    \<and> (map_of (rooms s) rid = None \<longrightarrow>
         map_of (rooms s') rid =
           Some \<lparr>users = {sid},
                 passwordHash =
                   (if truthy (get_prop data ''isProtected'')
                       \<and> truthy (get_prop data ''passwordHash'')
                    then get_prop data ''passwordHash'' else JNull),
                 createdAt = now\<rparr>)
    \<and> (\<forall>rm. map_of (rooms s) rid = Some rm \<longrightarrow>
         map_of (rooms s') rid = Some (rm\<lparr>users := insert sid (users rm)\<rparr>))
    \<and> (\<forall>r. r \<noteq> rid \<longrightarrow> map_of (rooms s') r = map_of (rooms s) r)"
proof -
  define rm where "rm = (case map_of (rooms s) rid of
                 None \<Rightarrow>
                   \<lparr>users = {},
                    passwordHash =
                      (if truthy (get_prop data ''isProtected'')
                          \<and> truthy (get_prop data ''passwordHash'')
                       then get_prop data ''passwordHash'' else JNull),
                    createdAt = now\<rparr>
               | Some rm0 \<Rightarrow> rm0)"
  define s' where "s' = s\<lparr>rooms := AList.update rid (rm\<lparr>users := insert sid (users rm)\<rparr>) (rooms s),
            sio_rooms := (sio_rooms s)(rid := insert sid (sio_rooms s rid))\<rparr>"
  define out where "out = (if cb = JFunction then
        [Callback (JObj [(''success'', JBool True), (''roomId'', JStr rid)]),
         Broadcast rid ''user-joined'' [JStr sid]]
      else if truthy cb then [] else [Broadcast rid ''user-joined'' [JStr sid]])"
  have j: "join_room s sid now data cb =
        (if cb \<noteq> JFunction \<and> truthy cb then Inl (TypeError, s', out) else Inr (s', out))"
    unfolding join_room_outcome [OF assms rm_def s'_def] by (simp add: out_def)
  have m: "map_of (rooms s') r = ((map_of (rooms s))(rid \<mapsto> rm\<lparr>users := insert sid (users rm)\<rparr>)) r"
    for r by (simp add: s'_def update_conv')
  have a: "map_of (rooms s) rid = None \<longrightarrow>
         map_of (rooms s') rid =
           Some \<lparr>users = {sid},
                 passwordHash =
                   (if truthy (get_prop data ''isProtected'')
                       \<and> truthy (get_prop data ''passwordHash'')
                    then get_prop data ''passwordHash'' else JNull),
                 createdAt = now\<rparr>"
    by (simp add: m rm_def)
  have b: "\<forall>rm. map_of (rooms s) rid = Some rm \<longrightarrow>
         map_of (rooms s') rid = Some (rm\<lparr>users := insert sid (users rm)\<rparr>)"
    by (simp add: m rm_def)
  have c: "\<forall>r. r \<noteq> rid \<longrightarrow> map_of (rooms s') r = map_of (rooms s) r"
    by (simp add: m)
  show ?thesis
    by (intro exI conjI) (rule j a b c)+
qed

theorem join_room_first_writer_wins_witness:
  "room_id_regex ''ABCDEFGH''
   \<and> (\<exists>s' out. join_room init_server ''sockA'' 7
              (JObj [(''roomId'', JStr ''ABCDEFGH''), (''passwordHash'', JStr ''h1''),
                     (''isProtected'', JBool True)]) JFunction
            = Inr (s', out)
          \<and> map_of (rooms s') ''ABCDEFGH''
              = Some \<lparr>users = {''sockA''}, passwordHash = JStr ''h1'', createdAt = 7\<rparr>)"
proof -
  have h1: "room_id_regex ''ABCDEFGH''" by (rule room_id_regex_ABCDEFGH)
  have h2: "JObj [(''roomId'', JStr ''ABCDEFGH''), (''passwordHash'', JStr ''h1''),
                     (''isProtected'', JBool True)] = JStr ''ABCDEFGH''
     \<or> get_prop (JObj [(''roomId'', JStr ''ABCDEFGH''), (''passwordHash'', JStr ''h1''),
                     (''isProtected'', JBool True)]) ''roomId'' = JStr ''ABCDEFGH''" by simp
  from join_room_first_writer_wins [OF h1 h2, of init_server "''sockA''" 7 JFunction]
  obtain s' out where
    j: "join_room init_server ''sockA'' 7
              (JObj [(''roomId'', JStr ''ABCDEFGH''), (''passwordHash'', JStr ''h1''),
                     (''isProtected'', JBool True)]) JFunction
         = (if JFunction \<noteq> JFunction \<and> truthy JFunction
            then Inl (TypeError, s', out) else Inr (s', out))"
    and m: "map_of (rooms init_server) ''ABCDEFGH'' = None \<longrightarrow> map_of (rooms s') ''ABCDEFGH''
              = Some \<lparr>users = {''sockA''},
                      passwordHash =
                        (if truthy (get_prop (JObj [(''roomId'', JStr ''ABCDEFGH''),
                                (''passwordHash'', JStr ''h1''), (''isProtected'', JBool True)])
                              ''isProtected'')
                            \<and> truthy (get_prop (JObj [(''roomId'', JStr ''ABCDEFGH''),
                                (''passwordHash'', JStr ''h1''), (''isProtected'', JBool True)])
                              ''passwordHash'')
                         then get_prop (JObj [(''roomId'', JStr ''ABCDEFGH''),
                                (''passwordHash'', JStr ''h1''), (''isProtected'', JBool True)])
                              ''passwordHash''
                         else JNull),
                      createdAt = 7\<rparr>"
    by (elim exE conjE) (rule that, assumption+)
  have j': "join_room init_server ''sockA'' 7
              (JObj [(''roomId'', JStr ''ABCDEFGH''), (''passwordHash'', JStr ''h1''),
                     (''isProtected'', JBool True)]) JFunction = Inr (s', out)"
    using j by simp
  have m': "map_of (rooms s') ''ABCDEFGH''
              = Some \<lparr>users = {''sockA''}, passwordHash = JStr ''h1'', createdAt = 7\<rparr>"
    using m by (simp add: init_server_def)
  show ?thesis
    by (intro conjI exI) (rule h1 j' m')+
qed




section \<open>Verifying a password\<close>

lemma strict_eq_string: "strict_eq v (JStr h) = (v = JStr h)"
  by (cases v) auto

lemma typeof_string: "typeof v = TString \<longleftrightarrow> (\<exists>h. v = JStr h)"
  by (cases v) auto

lemma verify_password_stored:
  assumes "room_id_regex rid" and "map_of (rooms s) rid = Some rm"
    and "get_prop data ''roomId'' = JStr rid" and "get_prop data ''passwordHash'' = JStr h"
  shows "verify_password s data =
     Inr (s, [Emit ''password-verified'' [JObj [(''valid'', JBool (passwordHash rm = JStr h))]]])"
  using assms get_prop_not_nullish [OF assms(3)]
  by (simp add: verify_password_def Let_def strict_eq_string)

lemma verify_password_not_string:
  assumes "\<not> nullish data" and "typeof (get_prop data ''passwordHash'') \<noteq> TString"
  shows "verify_password s data =
     Inr (s, [Emit ''password-verified'' [JObj [(''valid'', JBool False)]]])"
  using assms by (simp add: verify_password_def Let_def)

lemma verify_password_invalid_id:
  assumes "\<not> nullish data" and "\<not> isValidRoomId (get_prop data ''roomId'')"
  shows "verify_password s data =
     Inr (s, [Emit ''password-verified'' [JObj [(''valid'', JBool False)]]])"
  using assms by (simp add: verify_password_def Let_def)



lemma verify_password_null_hash:
  assumes "map_of (rooms s) rid = Some rm" and "passwordHash rm = JNull"
    and "get_prop data ''roomId'' = JStr rid"
  shows "verify_password s data =
     Inr (s, [Emit ''password-verified'' [JObj [(''valid'', JBool False)]]])"
proof (cases "room_id_regex rid \<and> typeof (get_prop data ''passwordHash'') = TString")
  case True
  then obtain h where "get_prop data ''passwordHash'' = JStr h" by (auto simp: typeof_string)
  then show ?thesis
    using verify_password_stored [OF _ assms(1) assms(3), of h] True assms(2) by simp
next
  case False
  have nn: "\<not> nullish data" using assms(3) by (rule get_prop_not_nullish)
  from False show ?thesis
    using verify_password_invalid_id [OF nn] verify_password_not_string [OF nn] assms(3)
    by auto
qed



text \<open>
  Claim C10. For a room whose stored hash is null, verify-password answers the event
  password-verified with valid false for every payload that names the room, whatever it
  carries as the password hash: a string, the empty string, null, a value of any other
  type, or nothing.
\<close>

theorem unprotected_room_never_verifies:
  assumes "map_of (rooms s) rid = Some rm" and "passwordHash rm = JNull"
    and "get_prop data ''roomId'' = JStr rid"
  shows "verify_password s data =
     Inr (s, [Emit ''password-verified'' [JObj [(''valid'', JBool False)]]])"
  using assms by (rule verify_password_null_hash)

theorem unprotected_room_never_verifies_witness:
  "map_of (rooms open_state) ''ABCDEFGH''
     = Some \<lparr>users = {''sockA''}, passwordHash = JNull, createdAt = 7\<rparr>
   \<and> verify_password open_state (JObj [(''roomId'', JStr ''ABCDEFGH''), (''passwordHash'', JStr [])])
       = Inr (open_state, [Emit ''password-verified'' [JObj [(''valid'', JBool False)]]])
   \<and> verify_password open_state (JObj [(''roomId'', JStr ''ABCDEFGH''), (''passwordHash'', JNull)])
       = Inr (open_state, [Emit ''password-verified'' [JObj [(''valid'', JBool False)]]])
   \<and> verify_password open_state (JObj [(''roomId'', JStr ''ABCDEFGH'')])
       = Inr (open_state, [Emit ''password-verified'' [JObj [(''valid'', JBool False)]]])"
proof -
  have h1: "map_of (rooms open_state) ''ABCDEFGH''
     = Some \<lparr>users = {''sockA''}, passwordHash = JNull, createdAt = 7\<rparr>"
    by (simp add: open_state_def)
  have h2: "passwordHash \<lparr>users = {''sockA''}, passwordHash = JNull, createdAt = 7\<rparr> = JNull"
    by simp
  have g: "get_prop (JObj ((''roomId'', JStr ''ABCDEFGH'') # kvs)) ''roomId'' = JStr ''ABCDEFGH''"
    for kvs by simp
  show ?thesis
    by (intro conjI)
      (rule h1 unprotected_room_never_verifies [OF h1 h2 g])+
qed

section \<open>Relaying file metadata\<close>

lemma size_check:
  "v \<noteq> JNum NaN \<Longrightarrow>
     (typeof v = TNumber \<and> \<not> js_less v (JNum (Finite 0)) \<and> \<not> js_greater v MAX_META_SIZE)
       = within_size_limit v"
proof (cases v)
  case (JNum n)
  then show "v \<noteq> JNum NaN \<Longrightarrow> ?thesis"
    by (cases n) (auto simp: within_size_limit_def js_greater_def MAX_META_SIZE_def)
qed (simp_all add: within_size_limit_def)

lemma object_check: "(truthy v \<and> typeof v = TObject \<and> get_prop v k \<noteq> JUndefined)
   = (is_object v \<and> get_prop v k \<noteq> JUndefined)"
  by (cases v) auto

lemma socket_data_object: "isValidSocketData data =
   (is_object data \<and> isValidRoomId (get_prop data ''roomId''))"
  by (cases data) (auto simp: isValidSocketData_def isValidRoomId_def)

lemma metadata_name_check:
  "(truthy md \<and> typeof md = TObject \<and> typeof (get_prop md ''name'') = TString)
    = (is_object md \<and> is_text (get_prop md ''name''))"
proof -
  have "typeof v = TString \<longleftrightarrow> is_text v" for v by (cases v) auto
  then show ?thesis by (cases md) auto
qed

text \<open>
  Claim C5, as the specification states it, does not hold: a file-meta message whose name
  is the empty string is relayed. The handler tests the type of the name only.
\<close>

theorem file_meta_empty_name_counterexample:
  "\<not> file_meta_spec empty_name_meta
   \<and> file_meta pair_state ''sockA'' empty_name_meta =
       Inr (pair_state, [Broadcast ''ABCDEFGH'' ''file-meta''
                          [JObj [(''name'', JStr []), (''size'', JNum (Finite 1024))]]])
   \<and> recipients pair_state ''sockA''
        (Broadcast ''ABCDEFGH'' ''file-meta''
           [JObj [(''name'', JStr []), (''size'', JNum (Finite 1024))]]) = {''sockB''}"
  by (simp add: file_meta_spec_def empty_name_meta_def file_meta_def isValidSocketData_def
      room_id_regex_ABCDEFGH js_greater_def MAX_META_SIZE_def pair_state_def)

text \<open>
  Claim C5, amended. A file-meta message is relayed, with its metadata as it came, to the
  other sockets of the room exactly when the payload is an object with a valid room id and
  a metadata object whose name is text, which may be empty, and whose size is a number that
  is not negative and does not exceed 10 GiB; otherwise nothing is sent and the state is
  unchanged. The size NaN, which no JSON payload carries, is set aside.
\<close>

theorem file_meta_relayed_iff:
  assumes "get_prop (get_prop data ''metadata'') ''size'' \<noteq> JNum NaN"
  shows "file_meta s sid data =
     (if file_meta_accepted data
      then Inr (s, [Broadcast (string_of (get_prop data ''roomId'')) ''file-meta''
                      [get_prop data ''metadata'']])
      else Inr (s, []))"
proof -
  have "file_meta_accepted data \<longleftrightarrow>
      isValidSocketData data
      \<and> (truthy (get_prop data ''metadata'') \<and> typeof (get_prop data ''metadata'') = TObject
         \<and> typeof (get_prop (get_prop data ''metadata'') ''name'') = TString)
      \<and> (typeof (get_prop (get_prop data ''metadata'') ''size'') = TNumber
         \<and> \<not> js_less (get_prop (get_prop data ''metadata'') ''size'') (JNum (Finite 0))
         \<and> \<not> js_greater (get_prop (get_prop data ''metadata'') ''size'') MAX_META_SIZE)"
    unfolding size_check [OF assms] metadata_name_check socket_data_object
    by (auto simp: file_meta_accepted_def)
  then show ?thesis
    by (auto simp: file_meta_def Let_def)
qed

theorem file_meta_relayed_iff_witness:
  "get_prop (get_prop empty_name_meta ''metadata'') ''size'' \<noteq> JNum NaN
   \<and> file_meta pair_state ''sockA'' empty_name_meta =
       Inr (pair_state, [Broadcast ''ABCDEFGH'' ''file-meta''
                          [JObj [(''name'', JStr []), (''size'', JNum (Finite 1024))]]])"
proof -
  have h: "get_prop (get_prop empty_name_meta ''metadata'') ''size'' \<noteq> JNum NaN"
    by (simp add: empty_name_meta_def)
  have a: "file_meta_accepted empty_name_meta"
    by (simp add: file_meta_accepted_def empty_name_meta_def within_size_limit_def
        room_id_regex_ABCDEFGH)
  show ?thesis
    using h a file_meta_relayed_iff [OF h, of pair_state "''sockA''"]
    by (simp add: empty_name_meta_def)
qed

section \<open>Admission of connections\<close>

lemma rate_cleanup_in_window:
  "m ip = Some d \<Longrightarrow> now - firstConnection d \<le> RATE_LIMIT_WINDOW \<Longrightarrow>
     rate_cleanup m now ip = Some d"
  by (simp add: rate_cleanup_def)





section \<open>The clean-up of old rooms\<close>

lemma map_of_filter_values:
  "distinct (map fst xs) \<Longrightarrow> map_of (filter (\<lambda>(k, v). P v) xs) r =
     (case map_of xs r of None \<Rightarrow> None | Some v \<Rightarrow> if P v then Some v else None)"
  by (induction xs) (auto split: option.splits simp: map_of_eq_None_iff image_iff)

text \<open>
  Claim C8. After the periodic clean-up the registry holds exactly the rooms it held before
  other than those that are empty and older than 10 minutes. A room with a user stays
  whatever its age, a room of at most 10 minutes stays even when empty, and the rooms of
  socket.io are not touched.
\<close>

theorem room_cleanup_exact:
  "set (rooms (room_cleanup now s))
     = {(r, rm). (r, rm) \<in> set (rooms s) \<and> \<not> (users rm = {} \<and> now - createdAt rm > 10 * 60 * 1000)}
   \<and> (\<forall>r rm. (r, rm) \<in> set (rooms s) \<and> users rm \<noteq> {} \<longrightarrow> (r, rm) \<in> set (rooms (room_cleanup now s)))
   \<and> (\<forall>r rm. (r, rm) \<in> set (rooms s) \<and> now - createdAt rm \<le> 10 * 60 * 1000
         \<longrightarrow> (r, rm) \<in> set (rooms (room_cleanup now s)))
   \<and> (distinct (map fst (rooms s)) \<longrightarrow>
        map_of (rooms (room_cleanup now s)) r =
          (case map_of (rooms s) r of
             None \<Rightarrow> None
           | Some rm \<Rightarrow>
               if users rm = {} \<and> now - createdAt rm > 10 * 60 * 1000 then None else Some rm))
   \<and> sio_rooms (room_cleanup now s) = sio_rooms s"
  using map_of_filter_values [of "rooms s"
      "\<lambda>rm. \<not> (now - createdAt rm > ROOM_TIMEOUT \<and> users rm = {})" r]
  by (auto simp: room_cleanup_def ROOM_TIMEOUT_def split: option.splits)

theorem room_cleanup_exact_witness:
  "distinct (map fst (rooms aged_state))
   \<and> rooms (room_cleanup 700000 aged_state)
       = [(''oldInUse1'', \<lparr>users = {''sockA''}, passwordHash = JNull, createdAt = 0\<rparr>),
          (''newEmpty1'', \<lparr>users = {}, passwordHash = JNull, createdAt = 500000\<rparr>)]
   \<and> map_of (rooms (room_cleanup 700000 aged_state)) ''oldEmpty1'' = None"
proof -
  have d: "distinct (map fst (rooms aged_state))" by (simp add: aged_state_def)
  have r: "rooms (room_cleanup 700000 aged_state)
       = [(''oldInUse1'', \<lparr>users = {''sockA''}, passwordHash = JNull, createdAt = 0\<rparr>),
          (''newEmpty1'', \<lparr>users = {}, passwordHash = JNull, createdAt = 500000\<rparr>)]"
    by (simp add: room_cleanup_def aged_state_def ROOM_TIMEOUT_def)
  show ?thesis
    using d r room_cleanup_exact [where now = 700000 and s = aged_state and r = "''oldEmpty1''"]
    by (simp add: aged_state_def)
qed

section \<open>The registry and socket.io agree\<close>

lemma members_update:
  "members (s\<lparr>rooms := AList.update rid rm (rooms s), sio_rooms := f\<rparr>) r
     = (if r = rid then users rm else members s r)"
  by (simp add: members_def update_conv')

lemma consistent_init: "consistent init_server"
  by (simp add: consistent_def init_server_def members_def)

lemma consistent_join_update:
  assumes "consistent s" and "room_id_regex rid"
    and "users rm = insert sid (members s rid)"
  shows "consistent (s\<lparr>rooms := AList.update rid rm (rooms s),
                        sio_rooms := (sio_rooms s)(rid := insert sid (sio_rooms s rid))\<rparr>)"
proof -
  have d: "distinct (map fst (rooms s))" and k: "\<forall>r \<in> fst ` set (rooms s). room_id_regex r"
    and m: "\<forall>r. sio_rooms s r = members s r"
    using assms(1) by (simp_all add: consistent_def)
  show ?thesis
    unfolding consistent_def
  proof (intro conjI)
    show "distinct (map fst (rooms (s\<lparr>rooms := AList.update rid rm (rooms s),
                        sio_rooms := (sio_rooms s)(rid := insert sid (sio_rooms s rid))\<rparr>)))"
      using d by (simp add: distinct_update)
    show "\<forall>r \<in> fst ` set (rooms (s\<lparr>rooms := AList.update rid rm (rooms s),
                        sio_rooms := (sio_rooms s)(rid := insert sid (sio_rooms s rid))\<rparr>)).
            room_id_regex r"
      using k assms(2) by (simp add: dom_update)
    show "\<forall>r. sio_rooms (s\<lparr>rooms := AList.update rid rm (rooms s),
                        sio_rooms := (sio_rooms s)(rid := insert sid (sio_rooms s rid))\<rparr>) r
            = members (s\<lparr>rooms := AList.update rid rm (rooms s),
                        sio_rooms := (sio_rooms s)(rid := insert sid (sio_rooms s rid))\<rparr>) r"
      using m assms(3) by (simp add: members_update)
  qed
qed

lemma state_of_if:
  "state_of (if a then Inr (s, o1) else if b then Inl (e, s, o2) else Inr (s, o3)) = s"
  by simp

lemma consistent_join_checked:
  assumes "consistent s"
  shows "consistent (state_of (join_checked s sid now v ph ip cb))"
proof (cases "isValidRoomId v")
  case False
  show ?thesis
    unfolding join_checked_invalid [OF False] state_of_if by (rule assms)
next
  case True
  then obtain rid where v: "v = JStr rid" and r: "room_id_regex rid"
    by (auto simp: isValidRoomId_cases)
  show ?thesis
  proof (cases "map_of (rooms s) rid")
    case None
    have "members s rid = {}" using None by (simp add: members_def)
    then have "consistent (s\<lparr>rooms := AList.update rid
                 \<lparr>users = {sid},
                  passwordHash = (if truthy (js_and ip ph) then ph else JNull),
                  createdAt = now\<rparr> (rooms s),
            sio_rooms := (sio_rooms s)(rid := insert sid (sio_rooms s rid))\<rparr>)"
      using consistent_join_update [OF assms r, of
          "\<lparr>users = {sid}, passwordHash = (if truthy (js_and ip ph) then ph else JNull),
            createdAt = now\<rparr>" sid]
      by simp
    then show ?thesis
      unfolding v join_checked_new [OF r None refl] state_of_if .
  next
    case (Some rm)
    have "members s rid = users rm" using Some by (simp add: members_def)
    then have "consistent (s\<lparr>rooms := AList.update rid (rm\<lparr>users := insert sid (users rm)\<rparr>)
                                          (rooms s),
            sio_rooms := (sio_rooms s)(rid := insert sid (sio_rooms s rid))\<rparr>)"
      using consistent_join_update [OF assms r, of "rm\<lparr>users := insert sid (users rm)\<rparr>" sid]
      by simp
    then show ?thesis
      unfolding v join_checked_existing [OF r Some refl] state_of_if .
  qed
qed

lemma consistent_join_room:
  assumes "consistent s"
  shows "consistent (state_of (join_room s sid now data cb))"
  using assms consistent_join_checked [OF assms]
  by (simp add: join_room_def call_if_given_cases)

lemma leave_rooms_fst:
  "fst (leave_rooms sid rs) =
     map (\<lambda>(r, rm). (r, rm\<lparr>users := users rm - {sid}\<rparr>))
       (filter (\<lambda>(r, rm). users rm \<noteq> {sid}) rs)"
proof (induction rs)
  case Nil
  show ?case by simp
next
  case (Cons p rs)
  obtain k rm where p: "p = (k, rm)" by (cases p)
  show ?case
  proof (cases "sid \<in> users rm")
    case True
    then have e: "(users rm - {sid} = {}) = (users rm = {sid})" by auto
    show ?thesis using Cons True e by (simp add: p case_prod_beta Let_def)
  next
    case False
    then have "rm\<lparr>users := users rm - {sid}\<rparr> = rm" and "users rm \<noteq> {sid}" by auto
    then show ?thesis using Cons False by (simp add: p case_prod_beta Let_def)
  qed
qed

lemma leave_rooms_keys:
  "map fst (fst (leave_rooms sid rs)) = map fst (filter (\<lambda>(r, rm). users rm \<noteq> {sid}) rs)"
  by (simp add: leave_rooms_fst case_prod_beta comp_def)

lemma leave_rooms_distinct:
  "distinct (map fst rs) \<Longrightarrow> distinct (map fst (fst (leave_rooms sid rs)))"
  by (simp add: leave_rooms_keys distinct_map_filter)

lemma map_of_map_values:
  "map_of (map (\<lambda>(k, v). (k, f v)) xs) r = map_option f (map_of xs r)"
  by (induction xs) auto

lemma leave_rooms_map_of:
  assumes "distinct (map fst rs)"
  shows "map_of (fst (leave_rooms sid rs)) r =
     (case map_of rs r of
        None \<Rightarrow> None
      | Some rm \<Rightarrow> if users rm = {sid} then None else Some (rm\<lparr>users := users rm - {sid}\<rparr>))"
  unfolding leave_rooms_fst map_of_map_values
  using map_of_filter_values [OF assms, of "\<lambda>rm. users rm \<noteq> {sid}" r]
  by (simp split: option.splits)

lemma leave_rooms_out:
  "snd (leave_rooms sid rs) =
     map (\<lambda>(r, rm). Broadcast r ''user-left'' [JObj [(''userId'', JStr sid)]])
       (filter (\<lambda>(r, rm). sid \<in> users rm) rs)"
proof (induction rs)
  case Nil
  show ?case by simp
next
  case (Cons p rs)
  obtain k rm where p: "p = (k, rm)" by (cases p)
  show ?case using Cons by (simp add: p case_prod_beta Let_def)
qed

lemma leave_rooms_absent:
  "\<forall>(r, rm) \<in> set rs. sid \<notin> users rm \<Longrightarrow> leave_rooms sid rs = (rs, [])"
  by (induction rs) auto

lemma members_absent:
  assumes "distinct (map fst (rooms s))" and "\<forall>r. sid \<notin> members s r"
  shows "\<forall>(r, rm) \<in> set (rooms s). sid \<notin> users rm"
proof (clarify)
  fix r rm
  assume "(r, rm) \<in> set (rooms s)" and "sid \<in> users rm"
  then have "map_of (rooms s) r = Some rm" using assms(1) by simp
  then have "sid \<in> members s r" using \<open>sid \<in> users rm\<close> by (simp add: members_def)
  then show False using assms(2) by simp
qed

lemma disconnect_eq:
  "disconnect s sid =
     Inr (s\<lparr>rooms := fst (leave_rooms sid (rooms s)),
            sio_rooms := (\<lambda>r. sio_rooms s r - {sid})\<rparr>,
          snd (leave_rooms sid (rooms s)))"
  by (simp add: disconnect_def case_prod_beta)

lemma disconnect_map_of:
  assumes "distinct (map fst (rooms s))" and "disconnect s sid = Inr (s', out)"
  shows "map_of (rooms s') r =
     (case map_of (rooms s) r of
        None \<Rightarrow> None
      | Some rm \<Rightarrow> if users rm = {sid} then None else Some (rm\<lparr>users := users rm - {sid}\<rparr>))"
  using assms(2) leave_rooms_map_of [OF assms(1), of sid r]
  by (auto simp: disconnect_eq)

lemma disconnect_members:
  assumes "distinct (map fst (rooms s))" and "disconnect s sid = Inr (s', out)"
  shows "members s' r = members s r - {sid}"
  unfolding members_def disconnect_map_of [OF assms]
  by (cases "map_of (rooms s) r") auto

lemma consistent_disconnect:
  assumes "consistent s" and "disconnect s sid = Inr (s', out)"
  shows "consistent s'"
proof -
  have d: "distinct (map fst (rooms s))" and k: "\<forall>r \<in> fst ` set (rooms s). room_id_regex r"
    and m: "\<forall>r. sio_rooms s r = members s r"
    using assms(1) by (simp_all add: consistent_def)
  have rs': "rooms s' = fst (leave_rooms sid (rooms s))"
    and sio': "sio_rooms s' = (\<lambda>r. sio_rooms s r - {sid})"
    using assms(2) by (auto simp: disconnect_eq)
  show ?thesis
    unfolding consistent_def
  proof (intro conjI)
    show "distinct (map fst (rooms s'))" unfolding rs' by (rule leave_rooms_distinct [OF d])
    have "fst ` set (rooms s') \<subseteq> fst ` set (rooms s)"
      using leave_rooms_keys [of sid "rooms s"] unfolding rs' [symmetric]
      by (metis (no_types, lifting) filter_is_subset image_mono list.set_map)
    then show "\<forall>r \<in> fst ` set (rooms s'). room_id_regex r" using k by blast
    show "\<forall>r. sio_rooms s' r = members s' r"
      using m by (simp add: disconnect_members [OF d assms(2)] sio')
  qed
qed

lemma consistent_room_cleanup:
  assumes "consistent s"
  shows "consistent (room_cleanup now s)"
proof -
  have d: "distinct (map fst (rooms s))" and k: "\<forall>r \<in> fst ` set (rooms s). room_id_regex r"
    and m: "\<forall>r. sio_rooms s r = members s r"
    using assms by (simp_all add: consistent_def)
  have mo: "map_of (rooms (room_cleanup now s)) r =
          (case map_of (rooms s) r of
             None \<Rightarrow> None
           | Some rm \<Rightarrow>
               if \<not> (now - createdAt rm > ROOM_TIMEOUT \<and> users rm = {}) then Some rm else None)"
    for r
    using map_of_filter_values [OF d,
        of "\<lambda>rm. \<not> (now - createdAt rm > ROOM_TIMEOUT \<and> users rm = {})" r]
    by (cases "map_of (rooms s) r") (auto simp: room_cleanup_def)
  have mem: "members (room_cleanup now s) r = members s r" for r
    unfolding members_def mo by (cases "map_of (rooms s) r") auto
  show ?thesis
    unfolding consistent_def
  proof (intro conjI)
    show "distinct (map fst (rooms (room_cleanup now s)))"
      using d by (simp add: room_cleanup_def distinct_map_filter)
    show "\<forall>r \<in> fst ` set (rooms (room_cleanup now s)). room_id_regex r"
      using k by (auto simp: room_cleanup_def)
    show "\<forall>r. sio_rooms (room_cleanup now s) r = members (room_cleanup now s) r"
      using m mem by (simp add: room_cleanup_def)
  qed
qed

lemma check_room_state: "state_of (check_room s data) = s"
  by (simp add: check_room_def Let_def split: option.splits)

lemma verify_password_state: "state_of (verify_password s data) = s"
  by (simp add: verify_password_def Let_def split: option.splits)

lemma offer_state: "state_of (offer s sid data) = s"
  by (simp add: offer_def)

lemma answer_state: "state_of (answer s sid data) = s"
  by (simp add: answer_def)

lemma ice_candidate_state: "state_of (ice_candidate s sid data) = s"
  by (simp add: ice_candidate_def)

lemma file_meta_state: "state_of (file_meta s sid data) = s"
  by (simp add: file_meta_def Let_def)

lemma transfer_done_state: "state_of (transfer_done s sid data) = s"
  by (simp add: transfer_done_def)

lemma transfer_confirmed_state: "state_of (transfer_confirmed s sid data) = s"
  by (simp add: transfer_confirmed_def)

lemma consistent_handle:
  assumes "consistent s"
  shows "consistent (state_of (handle s sid now ev))"
proof (cases ev)
  case (CheckRoom data)
  show ?thesis unfolding CheckRoom handle.simps check_room_state by (rule assms)
next
  case (VerifyPassword data)
  show ?thesis unfolding VerifyPassword handle.simps verify_password_state by (rule assms)
next
  case (JoinRoom data cb)
  show ?thesis unfolding JoinRoom handle.simps by (rule consistent_join_room [OF assms])
next
  case (Offer data)
  show ?thesis unfolding Offer handle.simps offer_state by (rule assms)
next
  case (Answer data)
  show ?thesis unfolding Answer handle.simps answer_state by (rule assms)
next
  case (IceCandidate data)
  show ?thesis unfolding IceCandidate handle.simps ice_candidate_state by (rule assms)
next
  case (FileMeta data)
  show ?thesis unfolding FileMeta handle.simps file_meta_state by (rule assms)
next
  case (TransferDone data)
  show ?thesis unfolding TransferDone handle.simps transfer_done_state by (rule assms)
next
  case (TransferConfirmed data)
  show ?thesis
    unfolding TransferConfirmed handle.simps transfer_confirmed_state by (rule assms)
next
  case Disconnect
  have "consistent (state_of (disconnect s sid))"
    unfolding disconnect_eq state_of.simps
    by (rule consistent_disconnect [OF assms disconnect_eq])
  then show ?thesis unfolding Disconnect handle.simps .
qed

lemma reachable_consistent: "reachable s \<Longrightarrow> consistent s"
proof (induction rule: reachable.induct)
  case start
  show ?case by (rule consistent_init)
next
  case (message s sid now ev s' out)
  show ?case using consistent_handle [OF message.IH, of sid now ev] message.hyps(2) by simp
next
  case (thrown s sid now ev e s' out)
  show ?case using consistent_handle [OF thrown.IH, of sid now ev] thrown.hyps(2) by simp
next
  case (cleanup s now)
  show ?case using cleanup.IH by (rule consistent_room_cleanup)
qed

lemma room_id_regex_solo5678: "room_id_regex ''solo5678''"
  by (simp add: room_id_regex_def is_alnum_def)

lemma members_pair_state:
  "members pair_state r =
     (if r = ''ABCDEFGH'' then {''sockA'', ''sockB''}
      else if r = ''solo5678'' then {''sockA''} else {})"
  by (simp add: members_def pair_state_def)

lemma consistent_pair_state: "consistent pair_state"
  unfolding consistent_def
proof (intro conjI)
  show "distinct (map fst (rooms pair_state))" by (simp add: pair_state_def)
  show "\<forall>r \<in> fst ` set (rooms pair_state). room_id_regex r"
    using room_id_regex_ABCDEFGH room_id_regex_solo5678 by (simp add: pair_state_def)
  show "\<forall>r. sio_rooms pair_state r = members pair_state r"
    unfolding members_pair_state by (simp add: pair_state_def)
qed

lemma sock_sets:
  "{''sockA'', ''sockB''} - {''sockA''} = {''sockB''}"
  "{''sockA'', ''sockB''} \<noteq> {''sockA''}"
  "{''sockA'', ''sockB''} - {''sockC''} = {''sockA'', ''sockB''}"
  by (simp_all add: insert_Diff_if doubleton_eq_iff)

section \<open>Disconnecting\<close>

text \<open>
  Claim C7. In a state where the registry and socket.io agree, as in every state the server
  reaches, a disconnect of the socket \<open>sid\<close> returns: every room loses \<open>sid\<close> from its users;
  a room whose only user was \<open>sid\<close> is deleted from the registry and every other room stays
  with its hash and its time of creation; for every room that had \<open>sid\<close>, in the order of
  the registry, a user-left notice with \<open>sid\<close> as the userId is sent, and it reaches the
  remaining members of that room. When \<open>sid\<close> was in no room, the state is unchanged and
  nothing is sent.
\<close>

theorem disconnect_cleans_up:
  assumes "consistent s"
  shows "\<exists>s' out. disconnect s sid = Inr (s', out)
    \<and> (\<forall>r. map_of (rooms s') r =
          (case map_of (rooms s) r of
             None \<Rightarrow> None
           | Some rm \<Rightarrow>
               if users rm = {sid} then None else Some (rm\<lparr>users := users rm - {sid}\<rparr>)))
    \<and> (\<forall>r. members s' r = members s r - {sid})
    \<and> out = map (\<lambda>(r, rm). Broadcast r ''user-left'' [JObj [(''userId'', JStr sid)]])
              (filter (\<lambda>(r, rm). sid \<in> users rm) (rooms s))
    \<and> (\<forall>r ev args. recipients s' sid (Broadcast r ev args) = members s r - {sid})
    \<and> ((\<forall>r. sid \<notin> members s r) \<longrightarrow> s' = s \<and> out = [])
    \<and> consistent s'"
proof -
  have d: "distinct (map fst (rooms s))" and m: "\<forall>r. sio_rooms s r = members s r"
    using assms by (simp_all add: consistent_def)
  define s' where "s' = s\<lparr>rooms := fst (leave_rooms sid (rooms s)),
                          sio_rooms := (\<lambda>r. sio_rooms s r - {sid})\<rparr>"
  define out where "out = snd (leave_rooms sid (rooms s))"
  have dis: "disconnect s sid = Inr (s', out)"
    unfolding s'_def out_def by (rule disconnect_eq)
  have sio': "sio_rooms s' = (\<lambda>r. sio_rooms s r - {sid})" by (simp add: s'_def)
  have rec: "recipients s' sid (Broadcast r ev args) = members s r - {sid}" for r ev args
    using m by (auto simp: sio')
  have none: "s' = s \<and> out = []" if a: "\<forall>r. sid \<notin> members s r"
  proof -
    have "leave_rooms sid (rooms s) = (rooms s, [])"
      using members_absent [OF d a] by (rule leave_rooms_absent)
    moreover have "(\<lambda>r. sio_rooms s r - {sid}) = sio_rooms s"
      using a m by auto
    ultimately show ?thesis by (simp add: s'_def out_def)
  qed
  show ?thesis
  proof (intro exI conjI)
    show "disconnect s sid = Inr (s', out)" by (rule dis)
    show "\<forall>r. map_of (rooms s') r =
          (case map_of (rooms s) r of
             None \<Rightarrow> None
           | Some rm \<Rightarrow>
               if users rm = {sid} then None else Some (rm\<lparr>users := users rm - {sid}\<rparr>))"
      using disconnect_map_of [OF d dis] by blast
    show "\<forall>r. members s' r = members s r - {sid}"
      using disconnect_members [OF d dis] by blast
    show "out = map (\<lambda>(r, rm). Broadcast r ''user-left'' [JObj [(''userId'', JStr sid)]])
              (filter (\<lambda>(r, rm). sid \<in> users rm) (rooms s))"
      unfolding out_def by (rule leave_rooms_out)
    show "\<forall>r ev args. recipients s' sid (Broadcast r ev args) = members s r - {sid}"
      using rec by blast
    show "(\<forall>r. sid \<notin> members s r) \<longrightarrow> s' = s \<and> out = []" using none by blast
    show "consistent s'" by (rule consistent_disconnect [OF assms dis])
  qed
qed

theorem disconnect_cleans_up_witness:
  "consistent pair_state
   \<and> (\<exists>s'. disconnect pair_state ''sockA'' =
         Inr (s', [Broadcast ''ABCDEFGH'' ''user-left'' [JObj [(''userId'', JStr ''sockA'')]],
                   Broadcast ''solo5678'' ''user-left'' [JObj [(''userId'', JStr ''sockA'')]]])
        \<and> map_of (rooms s') ''ABCDEFGH''
            = Some \<lparr>users = {''sockB''}, passwordHash = JNull, createdAt = 7\<rparr>
        \<and> map_of (rooms s') ''solo5678'' = None
        \<and> recipients s' ''sockA''
             (Broadcast ''ABCDEFGH'' ''user-left'' [JObj [(''userId'', JStr ''sockA'')]])
            = {''sockB''})"
proof -
  have c: "consistent pair_state" by (rule consistent_pair_state)
  from disconnect_cleans_up [OF c, of "''sockA''"]
  obtain s' out where d: "disconnect pair_state ''sockA'' = Inr (s', out)"
    and mo: "\<forall>r. map_of (rooms s') r =
          (case map_of (rooms pair_state) r of
             None \<Rightarrow> None
           | Some rm \<Rightarrow>
               if users rm = {''sockA''} then None
               else Some (rm\<lparr>users := users rm - {''sockA''}\<rparr>))"
    and o: "out = map (\<lambda>(r, rm). Broadcast r ''user-left'' [JObj [(''userId'', JStr ''sockA'')]])
              (filter (\<lambda>(r, rm). ''sockA'' \<in> users rm) (rooms pair_state))"
    and rec: "\<forall>r ev args. recipients s' ''sockA'' (Broadcast r ev args)
                 = members pair_state r - {''sockA''}"
    by (elim exE conjE) (rule that, assumption+)
  have 1: "out = [Broadcast ''ABCDEFGH'' ''user-left'' [JObj [(''userId'', JStr ''sockA'')]],
                   Broadcast ''solo5678'' ''user-left'' [JObj [(''userId'', JStr ''sockA'')]]]"
    unfolding o by (simp add: pair_state_def)
  have 2: "map_of (rooms s') ''ABCDEFGH''
            = Some \<lparr>users = {''sockB''}, passwordHash = JNull, createdAt = 7\<rparr>"
    using mo [rule_format, of "''ABCDEFGH''"] by (simp add: pair_state_def sock_sets)
  have 3: "map_of (rooms s') ''solo5678'' = None"
    using mo [rule_format, of "''solo5678''"] by (simp add: pair_state_def)
  have 4: "recipients s' ''sockA''
             (Broadcast ''ABCDEFGH'' ''user-left'' [JObj [(''userId'', JStr ''sockA'')]])
            = {''sockB''}"
    using rec [rule_format, of "''ABCDEFGH''"] by (simp add: members_pair_state sock_sets)
  show ?thesis
  proof (intro conjI exI)
    show "consistent pair_state" by (rule c)
    show "disconnect pair_state ''sockA'' =
         Inr (s', [Broadcast ''ABCDEFGH'' ''user-left'' [JObj [(''userId'', JStr ''sockA'')]],
                   Broadcast ''solo5678'' ''user-left'' [JObj [(''userId'', JStr ''sockA'')]]])"
      using d unfolding 1 .
    show "map_of (rooms s') ''ABCDEFGH''
            = Some \<lparr>users = {''sockB''}, passwordHash = JNull, createdAt = 7\<rparr>" by (rule 2)
    show "map_of (rooms s') ''solo5678'' = None" by (rule 3)
    show "recipients s' ''sockA''
             (Broadcast ''ABCDEFGH'' ''user-left'' [JObj [(''userId'', JStr ''sockA'')]])
            = {''sockB''}" by (rule 4)
  qed
qed

section \<open>Relaying to the rest of the room\<close>

lemma file_meta_accepted_relayed:
  assumes "file_meta_accepted data"
  shows "file_meta s sid data =
     Inr (s, [Broadcast (string_of (get_prop data ''roomId'')) ''file-meta''
                [get_prop data ''metadata'']])"
proof -
  have w: "within_size_limit (get_prop (get_prop data ''metadata'') ''size'')"
    using assms by (simp add: file_meta_accepted_def)
  then have nn: "get_prop (get_prop data ''metadata'') ''size'' \<noteq> JNum NaN"
    by (auto simp: within_size_limit_def)
  have "isValidSocketData data"
    using assms by (simp add: socket_data_object file_meta_accepted_def)
  moreover have "truthy (get_prop data ''metadata'')
      \<and> typeof (get_prop data ''metadata'') = TObject
      \<and> typeof (get_prop (get_prop data ''metadata'') ''name'') = TString"
    using assms by (simp add: metadata_name_check file_meta_accepted_def)
  moreover have "typeof (get_prop (get_prop data ''metadata'') ''size'') = TNumber
      \<and> \<not> js_less (get_prop (get_prop data ''metadata'') ''size'') (JNum (Finite 0))
      \<and> \<not> js_greater (get_prop (get_prop data ''metadata'') ''size'') MAX_META_SIZE"
    using w by (simp add: size_check [OF nn])
  ultimately show ?thesis by (simp add: file_meta_def Let_def)
qed

text \<open>
  Claim C9. In a state where the registry and socket.io agree, as in every state the server
  reaches, the socket \<open>x\<close> sends a message with the valid room id \<open>R\<close>. An offer or an answer
  with an sdp, an ice-candidate with a candidate, a file-meta with accepted metadata, a
  transfer-done and a transfer-confirmed each leave the state as it is and send one message
  to the room \<open>R\<close>; the first three carry the id of the sender as \<open>from\<close>. A message to the
  room \<open>R\<close> reaches the members of \<open>R\<close> other than \<open>x\<close>, all of them, and never \<open>x\<close>.
\<close>

theorem relay_excludes_sender:
  assumes "consistent s" and "get_prop data ''roomId'' = JStr R" and "room_id_regex R"
  shows
    "(truthy (get_prop data ''sdp'') \<longrightarrow>
        offer s x data =
          Inr (s, [Broadcast R ''offer''
                     [JObj [(''sdp'', get_prop data ''sdp''), (''from'', JStr x)]]])
        \<and> answer s x data =
          Inr (s, [Broadcast R ''answer''
                     [JObj [(''sdp'', get_prop data ''sdp''), (''from'', JStr x)]]]))
     \<and> (truthy (get_prop data ''candidate'') \<longrightarrow>
        ice_candidate s x data =
          Inr (s, [Broadcast R ''ice-candidate''
                     [JObj [(''candidate'', get_prop data ''candidate''), (''from'', JStr x)]]]))
     \<and> (file_meta_accepted data \<longrightarrow>
        file_meta s x data = Inr (s, [Broadcast R ''file-meta'' [get_prop data ''metadata'']]))
     \<and> transfer_done s x data = Inr (s, [Broadcast R ''transfer-done'' []])
     \<and> transfer_confirmed s x data = Inr (s, [Broadcast R ''transfer-confirmed'' []])
     \<and> (\<forall>ev args. recipients s x (Broadcast R ev args) = members s R - {x})
     \<and> (\<forall>ev args. x \<notin> recipients s x (Broadcast R ev args))"
proof -
  have v: "isValidSocketData data"
    using assms(2,3) get_prop_object [OF assms(2)] by (simp add: isValidSocketData_def)
  have m: "sio_rooms s R = members s R" using assms(1) by (simp add: consistent_def)
  have 1: "truthy (get_prop data ''sdp'') \<longrightarrow>
        offer s x data =
          Inr (s, [Broadcast R ''offer''
                     [JObj [(''sdp'', get_prop data ''sdp''), (''from'', JStr x)]]])
        \<and> answer s x data =
          Inr (s, [Broadcast R ''answer''
                     [JObj [(''sdp'', get_prop data ''sdp''), (''from'', JStr x)]]])"
    using v assms(2) by (simp add: offer_def answer_def)
  have 2: "truthy (get_prop data ''candidate'') \<longrightarrow>
        ice_candidate s x data =
          Inr (s, [Broadcast R ''ice-candidate''
                     [JObj [(''candidate'', get_prop data ''candidate''), (''from'', JStr x)]]])"
    using v assms(2) by (simp add: ice_candidate_def)
  have 3: "file_meta_accepted data \<longrightarrow>
        file_meta s x data = Inr (s, [Broadcast R ''file-meta'' [get_prop data ''metadata'']])"
    using file_meta_accepted_relayed [of data s x] assms(2) by simp
  have 4: "transfer_done s x data = Inr (s, [Broadcast R ''transfer-done'' []])"
    using v assms(2) by (simp add: transfer_done_def)
  have 5: "transfer_confirmed s x data = Inr (s, [Broadcast R ''transfer-confirmed'' []])"
    using v assms(2) by (simp add: transfer_confirmed_def)
  have 6: "\<forall>ev args. recipients s x (Broadcast R ev args) = members s R - {x}"
    using m by simp
  have 7: "\<forall>ev args. x \<notin> recipients s x (Broadcast R ev args)"
    by simp
  show ?thesis
    by (intro conjI) (rule 1 2 3 4 5 6 7)+
qed

theorem relay_excludes_sender_witness:
  "consistent pair_state
   \<and> get_prop (JObj [(''roomId'', JStr ''ABCDEFGH''), (''sdp'', JStr ''v=0'')]) ''roomId''
       = JStr ''ABCDEFGH''
   \<and> room_id_regex ''ABCDEFGH''
   \<and> offer pair_state ''sockA'' (JObj [(''roomId'', JStr ''ABCDEFGH''), (''sdp'', JStr ''v=0'')])
       = Inr (pair_state,
              [Broadcast ''ABCDEFGH'' ''offer''
                 [JObj [(''sdp'', JStr ''v=0''), (''from'', JStr ''sockA'')]]])
   \<and> recipients pair_state ''sockA''
        (Broadcast ''ABCDEFGH'' ''offer''
           [JObj [(''sdp'', JStr ''v=0''), (''from'', JStr ''sockA'')]]) = {''sockB''}"
proof -
  have c: "consistent pair_state" by (rule consistent_pair_state)
  have g: "get_prop (JObj [(''roomId'', JStr ''ABCDEFGH''), (''sdp'', JStr ''v=0'')]) ''roomId''
       = JStr ''ABCDEFGH''" by simp
  have t: "truthy (get_prop (JObj [(''roomId'', JStr ''ABCDEFGH''), (''sdp'', JStr ''v=0'')])
             ''sdp'')" by simp
  have s: "get_prop (JObj [(''roomId'', JStr ''ABCDEFGH''), (''sdp'', JStr ''v=0'')]) ''sdp''
       = JStr ''v=0''" by simp
  note r = relay_excludes_sender [OF c g room_id_regex_ABCDEFGH, of "''sockA''"]
  have o: "offer pair_state ''sockA''
             (JObj [(''roomId'', JStr ''ABCDEFGH''), (''sdp'', JStr ''v=0'')])
       = Inr (pair_state,
              [Broadcast ''ABCDEFGH'' ''offer''
                 [JObj [(''sdp'', JStr ''v=0''), (''from'', JStr ''sockA'')]]])"
    using r [THEN conjunct1] t unfolding s by simp
  have "\<forall>ev args. recipients pair_state ''sockA'' (Broadcast ''ABCDEFGH'' ev args)
          = members pair_state ''ABCDEFGH'' - {''sockA''}"
    by (rule r [THEN conjunct2, THEN conjunct2, THEN conjunct2, THEN conjunct2,
          THEN conjunct2, THEN conjunct1])
  then have p: "recipients pair_state ''sockA''
        (Broadcast ''ABCDEFGH'' ''offer''
           [JObj [(''sdp'', JStr ''v=0''), (''from'', JStr ''sockA'')]]) = {''sockB''}"
    unfolding members_pair_state by (simp add: sock_sets)
  show ?thesis
    by (intro conjI) (rule c g room_id_regex_ABCDEFGH o p)+
qed

end
